theory Spec2Isabelle
  imports Complex_Main "HOL-Library.Monad_Syntax" "HOL-Library.Word"
begin

section \<open>Numeric conventions\<close>

text \<open>
  The source computes with \<open>double\<close>, \<open>int\<close> and \<open>uint\<close>.
  \<^item> A \<open>double\<close> is a real number, and every arithmetic operation of the source on
    doubles rounds its exact result: the rounding function \<open>rnd\<close> is a parameter of every
    function that computes with doubles.  What the proofs need of it is collected in
    \<open>rounding\<close>: it is monotone, exact on the integers up to \<open>2^53\<close>, and its relative
    error on the normal range is at most \<open>2^-53\<close>.  Rounding to nearest in the binary64
    format has these properties.  The conversion of a \<open>uint\<close> to a double is exact, and so
    is \<open>ceil\<close>.
  \<^item> Infinities and NaN are not modelled.  A division whose divisor is zero yields one
    of them in the source; in the model the division is partial (\<open>fdiv\<close> returns \<open>None\<close>)
    and every operation that depends on it returns \<open>None\<close> as well.
  \<^item> An \<open>int\<close> has 32 bits.  The conversion \<open>(int)\<close> of a double truncates towards zero.
    Out of the range of \<open>int\<close> the conversion is undefined in C++, and so is an addition
    that overflows; the model gives them the values of the usual two's complement
    targets: the conversion gives \<open>-2^31\<close>, the addition wraps around.
  \<^item> The parameter \<open>_numSteps\<close> is a 32-bit word.  The counts that come from a grid are
    natural numbers; the only unsigned subtraction of the source
    (\<open>getNumIntervals() - 1\<close>) has its wrap-around at zero written out.
  \<^item> The constant \<open>EPS\<close> is declared outside the source file; it is a parameter of
    every function that uses it.
\<close>

definition fsub :: "(real \<Rightarrow> real) \<Rightarrow> real \<Rightarrow> real \<Rightarrow> real" where
  "fsub rnd a b = rnd (a - b)"

definition fmul :: "(real \<Rightarrow> real) \<Rightarrow> real \<Rightarrow> real \<Rightarrow> real" where
  "fmul rnd a b = rnd (a * b)"

definition fdiv :: "(real \<Rightarrow> real) \<Rightarrow> real \<Rightarrow> real \<Rightarrow> real option" where
  "fdiv rnd a b = (if b = 0 then None else Some (rnd (a / b)))"

definition double_of_uint :: "32 word \<Rightarrow> real" where
  \<comment> \<open>the conversion \<open>(double) n\<close> of a \<open>uint\<close>\<close>
  "double_of_uint n = real (unat n)"

definition ceil :: "real \<Rightarrow> real" where
  "ceil x = real_of_int \<lceil>x\<rceil>"

definition int_of_double :: "real \<Rightarrow> int" where
  \<comment> \<open>the conversion \<open>(int) x\<close>\<close>
  "int_of_double x =
     (let t = (if 0 \<le> x then \<lfloor>x\<rfloor> else \<lceil>x\<rceil>)
      in if - (2 ^ 31) \<le> t \<and> t \<le> 2 ^ 31 - 1 then t else - (2 ^ 31))"

definition int_add :: "int \<Rightarrow> int \<Rightarrow> int" where
  \<comment> \<open>\<open>a + b\<close> on \<open>int\<close>\<close>
  "int_add a b = (a + b + 2 ^ 31) mod 2 ^ 32 - 2 ^ 31"

definition rounding :: "(real \<Rightarrow> real) \<Rightarrow> bool" where
  "rounding rnd \<longleftrightarrow>
     (\<forall>x y. x \<le> y \<longrightarrow> rnd x \<le> rnd y) \<and>
     (\<forall>k::int. \<bar>k\<bar> \<le> 2 ^ 53 \<longrightarrow> rnd (real_of_int k) = real_of_int k) \<and>
     (\<forall>x. 1 / 2 ^ 1022 \<le> \<bar>x\<bar> \<and> \<bar>x\<bar> \<le> 2 ^ 1023 \<longrightarrow> \<bar>rnd x - x\<bar> \<le> \<bar>x\<bar> / 2 ^ 53)"

definition uint_pred :: "nat \<Rightarrow> nat" where
  \<comment> \<open>\<open>n - 1\<close> on a 32-bit unsigned integer\<close>
  "uint_pred n = (if n = 0 then 2 ^ 32 - 1 else n - 1)"


section \<open>The collaborators of \<open>IntegratorExport\<close>\<close>

subsection \<open>Grid\<close>

text \<open>
  Modelled from the spec: the class \<open>Grid\<close> (the spec's TimeGrid) is declared and
  implemented outside the source file.  It is an ordered sequence of time points with
  the queries the spec lists: interval count, first and last time, boundary time by
  index, equidistance (all intervals have identical duration), and the construction
  from two bounds and a number of points.  Reading a time point that does not exist is
  a failed assertion of the class, here \<open>None\<close>.
\<close>

record Grid =
  times :: "real list"

definition Grid_empty :: Grid where
  "Grid_empty = \<lparr> times = [] \<rparr>"


definition getNumIntervals :: "Grid \<Rightarrow> nat" where
  "getNumIntervals g = length (times g) - 1"

definition getTime :: "Grid \<Rightarrow> nat \<Rightarrow> real option" where
  "getTime g i = (if i < length (times g) then Some (times g ! i) else None)"

definition getFirstTime :: "Grid \<Rightarrow> real option" where
  "getFirstTime g = getTime g 0"

definition getLastTime :: "Grid \<Rightarrow> real option" where
  "getLastTime g = (if times g = [] then None else getTime g (length (times g) - 1))"

fun durations :: "real list \<Rightarrow> real list" where
  "durations (a # b # ts) = (b - a) # durations (b # ts)"
| "durations ts = []"

definition isEquidistant :: "Grid \<Rightarrow> bool" where
  "isEquidistant g =
     (case durations (times g) of [] \<Rightarrow> True | d # ds \<Rightarrow> list_all (\<lambda>e. e = d) ds)"

definition Grid_init :: "real \<Rightarrow> real \<Rightarrow> int \<Rightarrow> Grid" where
  \<comment> \<open>\<open>Grid( firstTime, lastTime, nPoints )\<close>: \<open>nPoints\<close> equally spaced points\<close>
  "Grid_init firstTime lastTime nPoints =
     \<lparr> times = map (\<lambda>i. firstTime + real i * (lastTime - firstTime) / (real_of_int nPoints - 1))
                   [0 ..< nat nPoints] \<rparr>"

definition wf_Grid :: "Grid \<Rightarrow> bool" where
  \<comment> \<open>the invariant of the spec's TimeGrid: at least one interval, times strictly increasing\<close>
  "wf_Grid g = (2 \<le> length (times g) \<and> sorted_wrt (<) (times g))"

subsection \<open>Vector, functions and variables of the generated code\<close>

text \<open>
  Modelled from the spec: \<open>Vector\<close> is an opaque container of doubles, here a list;
  a default-constructed vector is empty and \<open>isEmpty\<close> tests for dimension zero.
\<close>

type_synonym Vector = "real list"

definition isEmpty :: "Vector \<Rightarrow> bool" where
  "isEmpty v = (length v = 0)"

text \<open>
  Modelled from the spec: the symbolic function object exposes a name and a dimension;
  the handle of a generated function and a variable of the generated code are opaque
  values, each with a default-constructed value.
\<close>

record ExportODEfunction =
  fname :: string
  functionDim :: nat

definition ExportODEfunction_default :: ExportODEfunction where
  "ExportODEfunction_default = \<lparr> fname = [], functionDim = 0 \<rparr>"

definition getFunctionDim :: "ExportODEfunction \<Rightarrow> nat" where
  "getFunctionDim f = functionDim f"

definition getName :: "ExportODEfunction \<Rightarrow> string" where
  "getName f = fname f"

datatype ExportFunction = ExportFunction_default | ExportFunction string

datatype ExportType = ExportType_INT | ExportType_REAL

datatype ExportStruct = ACADO_VARIABLES | ACADO_WORKSPACE | ACADO_LOCAL

datatype ExportVariable =
    ExportVariable_default
  | ExportVariable string nat nat ExportType ExportStruct bool

datatype returnValue = SUCCESSFUL_RETURN | RET_INVALID_OPTION


section \<open>IntegratorExport\<close>

text \<open>
  The base class \<open>ExportAlgorithm\<close> is constructed from a pointer to the user
  interaction (an address, \<open>None\<close> for the null pointer) and the name of the common
  header.  The member \<open>N\<close>, which \<open>setGrid\<close> assigns, is not declared in the source
  file: it is inherited.
\<close>

record ExportAlgorithm =
  userInteraction :: "nat option"
  commonHeaderName :: string
  N :: nat

record IntegratorExport = ExportAlgorithm +
  EXPORT_RHS :: bool
  EQUIDISTANT :: bool
  CRS_FORMAT :: bool
  reset_int :: ExportVariable
  grid :: Grid
  numSteps :: Vector
  ODE :: ExportODEfunction
  diffs_ODE :: ExportODEfunction
  name_ODE :: string
  name_diffs_ODE :: string
  integrate :: ExportFunction

definition IntegratorExport_init :: "nat option \<Rightarrow> string \<Rightarrow> IntegratorExport" where
  \<comment> \<open>\<open>IntegratorExport( _userInteraction, _commonHeaderName )\<close>\<close>
  "IntegratorExport_init ui hdr =
     \<lparr> userInteraction = ui, commonHeaderName = hdr, N = 0,
       EXPORT_RHS = True, EQUIDISTANT = True, CRS_FORMAT = False,
       reset_int = ExportVariable ''resetIntegrator'' 1 1 ExportType_INT ACADO_VARIABLES True,
       grid = Grid_empty, numSteps = [],
       ODE = ExportODEfunction_default, diffs_ODE = ExportODEfunction_default,
       name_ODE = [], name_diffs_ODE = [],
       integrate = ExportFunction_default \<rparr>"

definition IntegratorExport_copy :: "IntegratorExport \<Rightarrow> IntegratorExport" where
  \<comment> \<open>\<open>IntegratorExport( const IntegratorExport& arg )\<close>: the base class is copied, the flags
      are set, every other member is default-constructed\<close>
  "IntegratorExport_copy arg =
     \<lparr> userInteraction = userInteraction arg, commonHeaderName = commonHeaderName arg, N = N arg,
       EXPORT_RHS = True, EQUIDISTANT = True, CRS_FORMAT = False,
       reset_int = ExportVariable_default,
       grid = Grid_empty, numSteps = [],
       ODE = ExportODEfunction_default, diffs_ODE = ExportODEfunction_default,
       name_ODE = [], name_diffs_ODE = [],
       integrate = ExportFunction_default \<rparr>"

definition clear :: "IntegratorExport \<Rightarrow> IntegratorExport" where
  "clear this = this"

definition ExportAlgorithm_assign :: "IntegratorExport \<Rightarrow> IntegratorExport \<Rightarrow> IntegratorExport" where
  \<comment> \<open>\<open>ExportAlgorithm::operator=( arg )\<close>: assigns the members of the base class\<close>
  "ExportAlgorithm_assign this arg =
     this\<lparr> userInteraction := userInteraction arg, commonHeaderName := commonHeaderName arg,
           N := N arg \<rparr>"

definition copy :: "IntegratorExport \<Rightarrow> IntegratorExport \<Rightarrow> IntegratorExport" where
  \<comment> \<open>the protected member \<open>copy( arg )\<close>\<close>
  "copy this arg =
     this\<lparr> EXPORT_RHS := EXPORT_RHS arg, EQUIDISTANT := EQUIDISTANT arg,
           CRS_FORMAT := CRS_FORMAT arg, grid := grid arg, numSteps := numSteps arg,
           integrate := integrate arg \<rparr>"

definition setGrid :: "IntegratorExport \<Rightarrow> Grid \<Rightarrow> IntegratorExport" where
  \<comment> \<open>\<open>setGrid( const Grid& _grid )\<close>\<close>
  "setGrid this g = this\<lparr> grid := g, EQUIDISTANT := False \<rparr>"

function steps_loop ::
  "(real \<Rightarrow> real) \<Rightarrow> real \<Rightarrow> Grid \<Rightarrow> real \<Rightarrow> nat \<Rightarrow> Vector \<Rightarrow> Vector option" where
  "steps_loop rnd EPS ocpGrid h i stepsVector =
     (if i < length stepsVector then
        do {
          t1 \<leftarrow> getTime ocpGrid (i + 1);
          t0 \<leftarrow> getTime ocpGrid i;
          q \<leftarrow> fdiv rnd (fsub rnd t1 t0) h;
          steps_loop rnd EPS ocpGrid h (i + 1)
            (stepsVector[i :=
               real_of_int (int_of_double (ceil (fsub rnd q (fmul rnd 10 EPS))))])
        }
      else Some stepsVector)"
  by pat_completeness auto
termination
  by (relation "measure (\<lambda>(rnd, EPS, ocpGrid, h, i, stepsVector). length stepsVector - i)") auto

definition setGrid_steps ::
  "(real \<Rightarrow> real) \<Rightarrow> real \<Rightarrow> IntegratorExport \<Rightarrow> Grid \<Rightarrow> 32 word \<Rightarrow> IntegratorExport option" where
  \<comment> \<open>\<open>setGrid( const Grid& _ocpGrid, const uint _numSteps )\<close>\<close>
  "setGrid_steps rnd EPS this ocpGrid numSteps' =
     do {
       let n = getNumIntervals ocpGrid;
       let equidistant = isEquidistant ocpGrid;
       tl \<leftarrow> getLastTime ocpGrid;
       tf \<leftarrow> getFirstTime ocpGrid;
       let T = fsub rnd tl tf;
       h \<leftarrow> fdiv rnd T (double_of_uint numSteps');
       stepsVector \<leftarrow> steps_loop rnd EPS ocpGrid h 0 (replicate n 0);
       if equidistant then
         do {
           L \<leftarrow> fdiv rnd T (real n);
           q \<leftarrow> fdiv rnd (double_of_uint numSteps') (real n);
           Some (this\<lparr> N := n,
                       grid := Grid_init 0 L
                         (int_add (int_of_double (ceil (fsub rnd q (fmul rnd 10 EPS)))) 1) \<rparr>)
         }
       else
         Some (this\<lparr> N := n, grid := Grid_init 0 h 2, numSteps := stepsVector \<rparr>)
     }"

definition setModel :: "IntegratorExport \<Rightarrow> string \<Rightarrow> string \<Rightarrow> returnValue \<times> IntegratorExport" where
  "setModel this nameODE nameDiffsODE =
     (if getFunctionDim (ODE this) = 0 then
        (SUCCESSFUL_RETURN,
         this\<lparr> name_ODE := nameODE, name_diffs_ODE := nameDiffsODE, EXPORT_RHS := False \<rparr>)
      else (RET_INVALID_OPTION, this))"

function locate_loop :: "(real \<Rightarrow> real) \<Rightarrow> Grid \<Rightarrow> real \<Rightarrow> real \<Rightarrow> nat \<Rightarrow> nat option" where
  "locate_loop rnd g scale time index =
     (if index < uint_pred (getNumIntervals g) then
        (case getTime g (index + 1) of
           None \<Rightarrow> None
         | Some t \<Rightarrow>
             if time > fmul rnd scale t then locate_loop rnd g scale time (index + 1)
             else Some index)
      else Some index)"
  by pat_completeness auto
termination
  by (relation "measure (\<lambda>(rnd, g, scale, time, index). uint_pred (getNumIntervals g) - index)")
    auto

definition getIntegrationInterval ::
  "(real \<Rightarrow> real) \<Rightarrow> IntegratorExport \<Rightarrow> real \<Rightarrow> nat option" where
  "getIntegrationInterval rnd this time =
     do {
       tl \<leftarrow> getLastTime (grid this);
       tf \<leftarrow> getFirstTime (grid this);
       scale \<leftarrow> fdiv rnd 1 (fsub rnd tl tf);
       locate_loop rnd (grid this) scale time 0
     }"

definition getGrid :: "IntegratorExport \<Rightarrow> Grid" where
  "getGrid this = grid this"

definition getNumSteps :: "IntegratorExport \<Rightarrow> Vector" where
  "getNumSteps this = numSteps this"

definition equidistantControlGrid :: "IntegratorExport \<Rightarrow> bool" where
  "equidistantControlGrid this = isEmpty (numSteps this)"

definition getNameODE :: "IntegratorExport \<Rightarrow> string" where
  "getNameODE this = (if EXPORT_RHS this then getName (ODE this) else name_ODE this)"

definition getNameDiffsODE :: "IntegratorExport \<Rightarrow> string" where
  "getNameDiffsODE this =
     (if EXPORT_RHS this then getName (diffs_ODE this) else name_diffs_ODE this)"


section \<open>Quantities of the grid computations\<close>

text \<open>
  Names for values that the source computes, each with the operations and the roundings
  of the source: in \<open>setGrid( _ocpGrid, _numSteps )\<close> the duration \<open>T\<close> of the coarse grid,
  the step size \<open>h = T / _numSteps\<close> and the argument of \<open>ceil\<close> for the coarse interval
  \<open>i\<close>; in \<open>getIntegrationInterval\<close> the scale \<open>1 / (last - first)\<close>.
\<close>

definition duration :: "(real \<Rightarrow> real) \<Rightarrow> Grid \<Rightarrow> real" where
  "duration rnd ocpGrid = fsub rnd (last (times ocpGrid)) (hd (times ocpGrid))"

definition stepSize :: "(real \<Rightarrow> real) \<Rightarrow> Grid \<Rightarrow> 32 word \<Rightarrow> real" where
  "stepSize rnd ocpGrid numSteps' = rnd (duration rnd ocpGrid / double_of_uint numSteps')"

definition stepArg :: "(real \<Rightarrow> real) \<Rightarrow> real \<Rightarrow> Grid \<Rightarrow> real \<Rightarrow> nat \<Rightarrow> real" where
  "stepArg rnd EPS ocpGrid h i =
     fsub rnd (rnd (fsub rnd (times ocpGrid ! (i + 1)) (times ocpGrid ! i) / h)) (fmul rnd 10 EPS)"


definition gridScale :: "(real \<Rightarrow> real) \<Rightarrow> Grid \<Rightarrow> real" where
  \<comment> \<open>the value \<open>scale\<close> of \<open>getIntegrationInterval\<close>\<close>
  "gridScale rnd g = rnd (1 / duration rnd g)"


section \<open>Objects in memory\<close>

text \<open>
  Copy construction and assignment are about two objects, and the assignment operator
  compares the addresses of its operands.  A store maps the address of an object to its
  value; the address \<open>0\<close> is the null pointer and holds no object.
\<close>

type_synonym store = "nat \<rightharpoonup> IntegratorExport"

definition construct_copy :: "store \<Rightarrow> nat \<Rightarrow> nat \<Rightarrow> store option" where
  \<comment> \<open>a new object at the unused address \<open>dst\<close>, copy-constructed from the object at \<open>arg\<close>\<close>
  "construct_copy s dst arg =
     (case s arg of
        None \<Rightarrow> None
      | Some a \<Rightarrow>
          if dst = 0 \<or> s dst \<noteq> None then None
          else Some (s(dst \<mapsto> IntegratorExport_copy a)))"

definition assign :: "store \<Rightarrow> nat \<Rightarrow> nat \<Rightarrow> store option" where
  \<comment> \<open>\<open>operator=\<close> of the object at \<open>this\<close>, applied to the object at \<open>arg\<close>\<close>
  "assign s this arg =
     (case s this of
        None \<Rightarrow> None
      | Some t \<Rightarrow>
          if this \<noteq> arg \<and> arg \<noteq> 0 then
            (case s arg of
               None \<Rightarrow> None
             | Some a \<Rightarrow> Some (s(this \<mapsto> ExportAlgorithm_assign (clear t) a)))
          else Some s)"


section \<open>Auxiliary facts\<close>

declare locate_loop.simps [simp del]
declare steps_loop.simps [simp del]

subsection \<open>Rounding\<close>

lemma rounding_mono: "rounding rnd \<Longrightarrow> x \<le> y \<Longrightarrow> rnd x \<le> rnd y"
  by (simp add: rounding_def)

lemma rounding_int: "rounding rnd \<Longrightarrow> \<bar>k\<bar> \<le> 2 ^ 53 \<Longrightarrow> rnd (real_of_int k) = real_of_int k"
  by (simp add: rounding_def)

lemma rounding_zero: "rounding rnd \<Longrightarrow> rnd 0 = 0"
  using rounding_int[of rnd 0] by simp






lemma rounding_id: "rounding (\<lambda>x. x)"
  by (simp add: rounding_def)

lemma int_of_double_in_range:
  "- (2 ^ 31) \<le> k \<Longrightarrow> k \<le> 2 ^ 31 - 1 \<Longrightarrow> int_of_double (ceil x) = k" if "\<lceil>x\<rceil> = k"
  using that by (simp add: int_of_double_def ceil_def Let_def)



lemma double_of_uint_nonzero: "n \<noteq> 0 \<Longrightarrow> double_of_uint n \<noteq> 0"
proof -
  assume "n \<noteq> 0"
  then have "0 < unat n" by (simp add: unat_gt_0)
  then show ?thesis by (simp only: double_of_uint_def of_nat_eq_0_iff)
qed

subsection \<open>Grids\<close>

lemma getTime_Some: "i < length (times g) \<Longrightarrow> getTime g i = Some (times g ! i)"
  by (simp add: getTime_def)

lemma wf_Grid_nth_mono:
  "wf_Grid g \<Longrightarrow> i < j \<Longrightarrow> j < length (times g) \<Longrightarrow> times g ! i < times g ! j"
  by (simp add: wf_Grid_def sorted_wrt_nth_less)

lemma first_last_time:
  assumes "times g \<noteq> []"
  shows "getFirstTime g = Some (hd (times g))"
    and "getLastTime g = Some (last (times g))"
  using assms
  by (simp_all add: getFirstTime_def getLastTime_def getTime_def hd_conv_nth last_conv_nth)

lemma Grid_init_two: "Grid_init 0 h 2 = \<lparr> times = [0, h] \<rparr>"
  by (simp add: Grid_init_def eval_nat_numeral)


subsection \<open>The scan of \<open>getIntegrationInterval\<close>\<close>

lemma locate_loop_stops:
  assumes "i \<le> m" and "m \<le> uint_pred (getNumIntervals g)"
    and "\<And>j. i \<le> j \<Longrightarrow> j < m \<Longrightarrow>
           j + 1 < length (times g) \<and> fmul rnd scale (times g ! (j + 1)) < time"
    and "m = uint_pred (getNumIntervals g) \<or>
         (m + 1 < length (times g) \<and> \<not> fmul rnd scale (times g ! (m + 1)) < time)"
  shows "locate_loop rnd g scale time i = Some m"
  using assms
proof (induction "m - i" arbitrary: i)
  case 0
  then have "i = m" by simp
  with "0.prems"(4) show ?case
    by (subst locate_loop.simps) (auto simp: getTime_Some)
next
  case (Suc d)
  then have lt: "i < m" by simp
  with Suc.prems(3)[of i]
  have step: "i + 1 < length (times g)" "fmul rnd scale (times g ! (i + 1)) < time"
    by simp_all
  have "locate_loop rnd g scale time (i + 1) = Some m"
  proof (rule Suc.hyps(1))
    show "d = m - (i + 1)" using Suc.hyps(2) by simp
    show "i + 1 \<le> m" using lt by simp
    show "m \<le> uint_pred (getNumIntervals g)" by (rule Suc.prems(2))
    show "\<And>j. i + 1 \<le> j \<Longrightarrow> j < m \<Longrightarrow>
            j + 1 < length (times g) \<and> fmul rnd scale (times g ! (j + 1)) < time"
      using Suc.prems(3) by simp
    show "m = uint_pred (getNumIntervals g) \<or>
          (m + 1 < length (times g) \<and> \<not> fmul rnd scale (times g ! (m + 1)) < time)"
      by (rule Suc.prems(4))
  qed
  moreover have "i < uint_pred (getNumIntervals g)" using lt Suc.prems(2) by simp
  ultimately show ?case using step
    by (subst locate_loop.simps) (simp add: getTime_Some)
qed

lemma locate_loop_result:
  "locate_loop rnd g scale time i = Some r \<Longrightarrow>
     i \<le> r \<and> r \<le> max i (uint_pred (getNumIntervals g)) \<and>
     (\<forall>j. i \<le> j \<and> j < r \<longrightarrow> fmul rnd scale (times g ! (j + 1)) < time) \<and>
     (r < uint_pred (getNumIntervals g) \<longrightarrow> \<not> fmul rnd scale (times g ! (r + 1)) < time)"
proof (induction rnd g scale time i rule: locate_loop.induct)
  case (1 rnd g scale time index)
  show ?case
  proof (cases "index < uint_pred (getNumIntervals g)")
    case False
    with "1.prems" have "r = index" by (subst (asm) locate_loop.simps) simp
    with False show ?thesis by simp
  next
    case True
    show ?thesis
    proof (cases "getTime g (index + 1)")
      case None
      with True "1.prems" show ?thesis by (subst (asm) locate_loop.simps) simp
    next
      case (Some t)
      then have t: "t = times g ! (index + 1)"
        by (simp add: getTime_def split: if_splits)
      show ?thesis
      proof (cases "fmul rnd scale t < time")
        case False
        with True Some "1.prems" have "r = index" by (subst (asm) locate_loop.simps) simp
        with True False t show ?thesis by simp
      next
        case gt: True
        with True Some "1.prems" have rec: "locate_loop rnd g scale time (index + 1) = Some r"
          by (subst (asm) locate_loop.simps) simp
        from "1.IH"[OF True Some gt rec]
        have ih: "index + 1 \<le> r" "r \<le> max (index + 1) (uint_pred (getNumIntervals g))"
          "\<forall>j. index + 1 \<le> j \<and> j < r \<longrightarrow> fmul rnd scale (times g ! (j + 1)) < time"
          "r < uint_pred (getNumIntervals g) \<longrightarrow> \<not> fmul rnd scale (times g ! (r + 1)) < time"
          by simp_all
        have "\<forall>j. index \<le> j \<and> j < r \<longrightarrow> fmul rnd scale (times g ! (j + 1)) < time"
        proof (intro allI impI)
          fix j assume j: "index \<le> j \<and> j < r"
          show "fmul rnd scale (times g ! (j + 1)) < time"
          proof (cases "j = index")
            case True with gt t show ?thesis by simp
          next
            case False with j ih(3) show ?thesis by simp
          qed
        qed
        with ih True show ?thesis by auto
      qed
    qed
  qed
qed

lemma locate_loop_total:
  assumes "uint_pred (getNumIntervals g) < length (times g)"
  shows "\<exists>r. locate_loop rnd g scale time i = Some r"
  using assms
proof (induction rnd g scale time i rule: locate_loop.induct)
  case (1 rnd g scale time index)
  show ?case
  proof (cases "index < uint_pred (getNumIntervals g)")
    case False
    then show ?thesis by (subst locate_loop.simps) simp
  next
    case True
    with "1.prems" have some: "getTime g (index + 1) = Some (times g ! (index + 1))"
      by (simp add: getTime_def)
    show ?thesis
    proof (cases "fmul rnd scale (times g ! (index + 1)) < time")
      case False
      with True some show ?thesis by (subst locate_loop.simps) simp
    next
      case gt: True
      from "1.IH"[OF True some gt "1.prems"] obtain r
        where "locate_loop rnd g scale time (index + 1) = Some r" by blast
      with True some gt show ?thesis by (subst locate_loop.simps) simp
    qed
  qed
qed

lemma getIntegrationInterval_unfold:
  assumes "1 \<le> getNumIntervals (grid this)"
    and "duration rnd (grid this) \<noteq> 0"
  shows "getIntegrationInterval rnd this time =
           locate_loop rnd (grid this) (gridScale rnd (grid this)) time 0"
proof -
  from assms(1) have "times (grid this) \<noteq> []"
    by (auto simp: getNumIntervals_def)
  from first_last_time[OF this] assms(2) show ?thesis
    by (simp add: getIntegrationInterval_def fdiv_def duration_def gridScale_def)
qed

subsection \<open>The loop of \<open>setGrid\<close>\<close>

lemma steps_loop_result:
  assumes "h \<noteq> 0" and "length v < length (times g)"
  shows "\<exists>v'. steps_loop rnd EPS g h i v = Some v' \<and> length v' = length v \<and>
           (\<forall>j<length v. v' ! j =
              (if i \<le> j
               then real_of_int (int_of_double (ceil (stepArg rnd EPS g h j)))
               else v ! j))"
  using assms
proof (induction rnd EPS g h i v rule: steps_loop.induct)
  case (1 rnd EPS g h i v)
  show ?case
  proof (cases "i < length v")
    case False
    then show ?thesis by (subst steps_loop.simps) simp
  next
    case True
    let ?x = "real_of_int (int_of_double (ceil (stepArg rnd EPS g h i)))"
    have t1: "getTime g (i + 1) = Some (times g ! (i + 1))"
      using True "1.prems"(2) by (simp add: getTime_def)
    have t0: "getTime g i = Some (times g ! i)"
      using True "1.prems"(2) by (simp add: getTime_def)
    have q: "fdiv rnd (fsub rnd (times g ! (i + 1)) (times g ! i)) h
               = Some (rnd (fsub rnd (times g ! (i + 1)) (times g ! i) / h))"
      using "1.prems"(1) by (simp add: fdiv_def)
    have x: "real_of_int (int_of_double (ceil (fsub rnd
               (rnd (fsub rnd (times g ! (i + 1)) (times g ! i) / h)) (fmul rnd 10 EPS)))) = ?x"
      by (simp add: stepArg_def)
    have len: "length (v[i := real_of_int (int_of_double (ceil (fsub rnd
               (rnd (fsub rnd (times g ! (i + 1)) (times g ! i) / h)) (fmul rnd 10 EPS))))])
                 < length (times g)"
      using "1.prems"(2) by simp
    from "1.IH"[OF True t1 t0 q "1.prems"(1) len]
    obtain v' where rec: "steps_loop rnd EPS g h (i + 1) (v[i := ?x]) = Some v'"
      and l: "length v' = length v"
      and e: "\<forall>j<length v. v' ! j =
                (if i + 1 \<le> j
                 then real_of_int (int_of_double (ceil (stepArg rnd EPS g h j)))
                 else v[i := ?x] ! j)"
      unfolding x by auto
    have unfold: "steps_loop rnd EPS g h i v = Some v'"
      using True t1 t0 q rec x by (subst steps_loop.simps) simp
    have "v' ! j =
            (if i \<le> j
             then real_of_int (int_of_double (ceil (stepArg rnd EPS g h j)))
             else v ! j)" if "j < length v" for j
    proof (cases "j = i")
      case True
      with e that show ?thesis by simp
    next
      case False
      with e that show ?thesis by (cases "i < j") simp_all
    qed
    with unfold l show ?thesis by blast
  qed
qed

lemma setGrid_steps_result:
  assumes "times ocpGrid \<noteq> []" and "S \<noteq> 0" and "stepSize rnd ocpGrid S \<noteq> 0"
    and "isEquidistant ocpGrid \<longrightarrow> getNumIntervals ocpGrid \<noteq> 0"
  shows "\<exists>v. length v = getNumIntervals ocpGrid \<and>
           (\<forall>i<getNumIntervals ocpGrid. v ! i =
              real_of_int (int_of_double (ceil (stepArg rnd EPS ocpGrid (stepSize rnd ocpGrid S) i)))) \<and>
           setGrid_steps rnd EPS this ocpGrid S =
             Some (if isEquidistant ocpGrid
                   then this\<lparr> N := getNumIntervals ocpGrid,
                              grid := Grid_init 0
                                (rnd (duration rnd ocpGrid / real (getNumIntervals ocpGrid)))
                                (int_add (int_of_double (ceil (fsub rnd
                                   (rnd (double_of_uint S / real (getNumIntervals ocpGrid)))
                                   (fmul rnd 10 EPS)))) 1) \<rparr>
                   else this\<lparr> N := getNumIntervals ocpGrid,
                              grid := Grid_init 0 (stepSize rnd ocpGrid S) 2,
                              numSteps := v \<rparr>)"
proof -
  let ?n = "getNumIntervals ocpGrid"
  let ?h = "stepSize rnd ocpGrid S"
  note fl = first_last_time[OF assms(1)]
  have S: "double_of_uint S \<noteq> 0" by (rule double_of_uint_nonzero[OF assms(2)])
  have "length (replicate ?n (0::real)) < length (times ocpGrid)"
    using assms(1) by (cases "times ocpGrid") (simp_all add: getNumIntervals_def)
  from steps_loop_result[OF assms(3) this, of rnd EPS 0]
  obtain v where v: "steps_loop rnd EPS ocpGrid ?h 0 (replicate ?n 0) = Some v"
    and l: "length v = ?n"
    and e: "\<forall>i<?n. v ! i = real_of_int (int_of_double (ceil (stepArg rnd EPS ocpGrid ?h i)))"
    by auto
  have h: "fdiv rnd (fsub rnd (last (times ocpGrid)) (hd (times ocpGrid))) (double_of_uint S) = Some ?h"
    using S by (simp add: fdiv_def stepSize_def duration_def)
  have "setGrid_steps rnd EPS this ocpGrid S =
             Some (if isEquidistant ocpGrid
                   then this\<lparr> N := ?n,
                              grid := Grid_init 0 (rnd (duration rnd ocpGrid / real ?n))
                                (int_add (int_of_double (ceil (fsub rnd
                                   (rnd (double_of_uint S / real ?n)) (fmul rnd 10 EPS)))) 1) \<rparr>
                   else this\<lparr> N := ?n, grid := Grid_init 0 ?h 2, numSteps := v \<rparr>)"
    using fl h v assms(4)
    by (auto simp: setGrid_steps_def fdiv_def Let_def duration_def)
  with l e show ?thesis by blast
qed

lemma setGrid_steps_equidistant_numSteps:
  "isEquidistant ocpGrid \<Longrightarrow> setGrid_steps rnd EPS this ocpGrid S = Some this' \<Longrightarrow>
     numSteps this' = numSteps this"
  by (auto simp: setGrid_steps_def Let_def split: Option.bind_splits)

lemma not_equidistant_nonempty: "\<not> isEquidistant g \<Longrightarrow> times g \<noteq> []"
  by (auto simp: isEquidistant_def)


lemmas eval_defs =
  setGrid_steps_def getLastTime_def getFirstTime_def getTime_def fdiv_def fsub_def fmul_def
  steps_loop.simps getNumIntervals_def isEquidistant_def Let_def ceil_def int_of_double_def
  int_add_def double_of_uint_def


section \<open>The interval lookup\<close>

text \<open>
  Claim C9.  For every grid with \<open>n \<ge> 1\<close> intervals whose duration, as the source computes
  it, is not zero (so that the scale \<open>1 / (last - first)\<close> is a number),
  \<open>getIntegrationInterval\<close> returns, for every time, an index of \<open>[0, n - 1]\<close>, and the
  index does not decrease when the time increases.  This holds for every rounding.
\<close>

theorem getIntegrationInterval_range_mono:
  assumes "1 \<le> getNumIntervals (grid this)"
    and "duration rnd (grid this) \<noteq> 0"
    and "time1 \<le> time2"
  shows "\<exists>r1 r2. getIntegrationInterval rnd this time1 = Some r1 \<and>
                  getIntegrationInterval rnd this time2 = Some r2 \<and>
                  r1 \<le> getNumIntervals (grid this) - 1 \<and>
                  r2 \<le> getNumIntervals (grid this) - 1 \<and> r1 \<le> r2"
proof -
  let ?g = "grid this"
  let ?scale = "gridScale rnd ?g"
  have b: "uint_pred (getNumIntervals ?g) = getNumIntervals ?g - 1"
    using assms(1) by (simp add: uint_pred_def)
  have "uint_pred (getNumIntervals ?g) < length (times ?g)"
    using assms(1) by (auto simp: uint_pred_def getNumIntervals_def)
  then obtain r1 r2 where r1: "locate_loop rnd ?g ?scale time1 0 = Some r1"
    and r2: "locate_loop rnd ?g ?scale time2 0 = Some r2"
    using locate_loop_total by metis
  note c1 = locate_loop_result[OF r1] and c2 = locate_loop_result[OF r2]
  have "r1 \<le> r2"
  proof (rule ccontr)
    assume "\<not> r1 \<le> r2"
    then have lt: "r2 < r1" by simp
    with c1 have "r2 < uint_pred (getNumIntervals ?g)" by simp
    with c2 have "\<not> fmul rnd ?scale (times ?g ! (r2 + 1)) < time2" by simp
    moreover from c1 lt have "fmul rnd ?scale (times ?g ! (r2 + 1)) < time1" by simp
    ultimately show False using assms(3) by simp
  qed
  moreover have "r1 \<le> getNumIntervals ?g - 1" "r2 \<le> getNumIntervals ?g - 1"
    using c1 c2 b by simp_all
  ultimately show ?thesis
    using r1 r2 by (simp add: getIntegrationInterval_unfold[OF assms(1,2)])
qed

theorem getIntegrationInterval_range_mono_witness:
  "1 \<le> getNumIntervals (grid (setGrid (IntegratorExport_init None ''acado.h'') \<lparr> times = [0, 1, 2, 4] \<rparr>)) \<and>
   duration (\<lambda>x. x) (grid (setGrid (IntegratorExport_init None ''acado.h'') \<lparr> times = [0, 1, 2, 4] \<rparr>)) \<noteq> 0 \<and>
   (1 / 8 :: real) \<le> 3 / 8 \<and>
   getIntegrationInterval (\<lambda>x. x)
     (setGrid (IntegratorExport_init None ''acado.h'') \<lparr> times = [0, 1, 2, 4] \<rparr>) (1 / 8) = Some 0 \<and>
   getIntegrationInterval (\<lambda>x. x)
     (setGrid (IntegratorExport_init None ''acado.h'') \<lparr> times = [0, 1, 2, 4] \<rparr>) (3 / 8) = Some 1"
proof -
  let ?w = "(setGrid (IntegratorExport_init None ''acado.h'') \<lparr> times = [0, 1, 2, 4] \<rparr>)"
  have n: "1 \<le> getNumIntervals (grid ?w)" by (simp add: setGrid_def getNumIntervals_def)
  have d: "duration (\<lambda>x. x) (grid ?w) \<noteq> 0"
    by (simp add: setGrid_def duration_def fsub_def)
  have le: "(1 / 8 :: real) \<le> 3 / 8" by simp
  from getIntegrationInterval_range_mono[OF n d le]
  show ?thesis using n d
    by (simp add: getIntegrationInterval_def setGrid_def getLastTime_def getFirstTime_def
        getTime_def fdiv_def fsub_def fmul_def locate_loop.simps uint_pred_def getNumIntervals_def)
qed

text \<open>
  Claim C2, as the source has it.  The scan advances while the time is strictly greater
  than the scaled upper boundary of the current interval, so at a time equal to the
  scaled interior boundary \<open>k\<close> it stops at the latest in the interval that ends there:
  the result is at most \<open>k - 1\<close>, never \<open>k\<close>.  It is \<open>k - 1\<close> when the scaled boundaries
  before \<open>k\<close> are strictly smaller than the scaled boundary \<open>k\<close>; rounding can make two of
  them equal, and then the result is smaller.  A time beyond the scaled last interior
  boundary gives \<open>n - 1\<close>.
\<close>

theorem getIntegrationInterval_at_boundary:
  assumes "rounding rnd" and "wf_Grid (grid this)" and "duration rnd (grid this) \<noteq> 0"
    and "2 \<le> getNumIntervals (grid this)"
    and "1 \<le> k" and "k \<le> getNumIntervals (grid this) - 1"
  shows "(\<exists>r. getIntegrationInterval rnd this
                 (fmul rnd (gridScale rnd (grid this)) (times (grid this) ! k)) = Some r \<and>
              r \<le> k - 1 \<and>
              ((\<forall>j. 1 \<le> j \<and> j < k \<longrightarrow>
                    fmul rnd (gridScale rnd (grid this)) (times (grid this) ! j)
                      < fmul rnd (gridScale rnd (grid this)) (times (grid this) ! k))
               \<longrightarrow> r = k - 1)) \<and>
         (\<forall>time. fmul rnd (gridScale rnd (grid this))
                    (times (grid this) ! (getNumIntervals (grid this) - 1)) < time \<longrightarrow>
                 getIntegrationInterval rnd this time = Some (getNumIntervals (grid this) - 1))"
proof -
  let ?g = "grid this"
  let ?n = "getNumIntervals ?g"
  let ?scale = "gridScale rnd ?g"
  let ?b = "\<lambda>j. fmul rnd ?scale (times ?g ! j)"
  have n1: "1 \<le> ?n" using assms(4) by simp
  note unfold = getIntegrationInterval_unfold[OF n1 assms(3)]
  have b: "uint_pred ?n = ?n - 1" using n1 by (simp add: uint_pred_def)
  have len: "length (times ?g) = ?n + 1"
    using assms(2) by (auto simp: wf_Grid_def getNumIntervals_def)
  have ne: "times ?g \<noteq> []" using len by auto
  \<comment> \<open>the tie\<close>
  have "uint_pred ?n < length (times ?g)" using b len by simp
  then obtain r where r: "locate_loop rnd ?g ?scale (?b k) 0 = Some r"
    using locate_loop_total by blast
  note c = locate_loop_result[OF r]
  have r_le: "r \<le> k - 1"
  proof (rule ccontr)
    assume "\<not> r \<le> k - 1"
    then have "k - 1 < r" by simp
    with c have "fmul rnd ?scale (times ?g ! (k - 1 + 1)) < ?b k" by simp
    then show False using assms(5) by simp
  qed
  have r_eq: "r = k - 1" if strict: "\<forall>j. 1 \<le> j \<and> j < k \<longrightarrow> ?b j < ?b k"
  proof -
    have "locate_loop rnd ?g ?scale (?b k) 0 = Some (k - 1)"
    proof (rule locate_loop_stops)
      show "0 \<le> k - 1" by simp
      show "k - 1 \<le> uint_pred ?n" using assms(6) b by simp
      show "j + 1 < length (times ?g) \<and> ?b (j + 1) < ?b k" if "0 \<le> j" "j < k - 1" for j
      proof -
        have "?b (j + 1) < ?b k" using strict that by simp
        moreover have "j + 1 < length (times ?g)" using that assms(6) len by linarith
        ultimately show ?thesis by blast
      qed
      show "k - 1 = uint_pred ?n \<or>
            (k - 1 + 1 < length (times ?g) \<and> \<not> ?b (k - 1 + 1) < ?b k)"
      proof -
        have "k - 1 + 1 = k" using assms(5) by simp
        moreover have "k < length (times ?g)" using assms(6) len by linarith
        ultimately show ?thesis by simp
      qed
    qed
    with r show ?thesis by simp
  qed
  have tie: "\<exists>r. getIntegrationInterval rnd this (?b k) = Some r \<and> r \<le> k - 1 \<and>
               ((\<forall>j. 1 \<le> j \<and> j < k \<longrightarrow> ?b j < ?b k) \<longrightarrow> r = k - 1)"
    using r r_le r_eq by (simp add: unfold)
  \<comment> \<open>beyond the last interior boundary\<close>
  have dur_pos: "0 < duration rnd ?g"
  proof -
    have "times ?g ! 0 < times ?g ! (length (times ?g) - 1)"
      using assms(2) len n1 by (intro wf_Grid_nth_mono) simp_all
    then have "hd (times ?g) < last (times ?g)"
      using ne by (simp add: hd_conv_nth last_conv_nth)
    then have "0 \<le> last (times ?g) - hd (times ?g)" by simp
    from rounding_mono[OF assms(1) this] have "0 \<le> duration rnd ?g"
      by (simp add: duration_def fsub_def rounding_zero[OF assms(1)])
    with assms(3) show ?thesis by simp
  qed
  have scale_nonneg: "0 \<le> ?scale"
  proof -
    have "0 \<le> 1 / duration rnd ?g" using dur_pos by simp
    from rounding_mono[OF assms(1) this] show ?thesis
      by (simp add: gridScale_def rounding_zero[OF assms(1)])
  qed
  have b_mono: "?b i \<le> ?b j" if "i \<le> j" "j < length (times ?g)" for i j
  proof -
    have "times ?g ! i \<le> times ?g ! j"
    proof (cases "i = j")
      case True then show ?thesis by simp
    next
      case False
      with that have "i < j" by simp
      from wf_Grid_nth_mono[OF assms(2) this that(2)] show ?thesis by simp
    qed
    then have "?scale * times ?g ! i \<le> ?scale * times ?g ! j"
      using scale_nonneg by (rule mult_left_mono)
    from rounding_mono[OF assms(1) this] show ?thesis by (simp add: fmul_def)
  qed
  have beyond: "getIntegrationInterval rnd this time = Some (?n - 1)"
    if "?b (?n - 1) < time" for time
  proof -
    have "locate_loop rnd ?g ?scale time 0 = Some (?n - 1)"
    proof (rule locate_loop_stops)
      show "0 \<le> ?n - 1" by simp
      show "?n - 1 \<le> uint_pred ?n" using b by simp
      show "j + 1 < length (times ?g) \<and> ?b (j + 1) < time" if "0 \<le> j" "j < ?n - 1" for j
      proof -
        have "?b (j + 1) \<le> ?b (?n - 1)" using that len by (intro b_mono) simp_all
        with \<open>?b (?n - 1) < time\<close> have "?b (j + 1) < time" by simp
        moreover have "j + 1 < length (times ?g)" using that len by linarith
        ultimately show ?thesis by blast
      qed
      show "?n - 1 = uint_pred ?n \<or>
            (?n - 1 + 1 < length (times ?g) \<and> \<not> ?b (?n - 1 + 1) < time)"
        using b by simp
    qed
    then show ?thesis by (simp add: unfold)
  qed
  from tie beyond show ?thesis by blast
qed

theorem getIntegrationInterval_at_boundary_witness:
  "rounding (\<lambda>x. x) \<and>
   wf_Grid (grid (setGrid (IntegratorExport_init None ''acado.h'') \<lparr> times = [0, 1, 2, 4] \<rparr>)) \<and>
   gridScale (\<lambda>x. x) \<lparr> times = [0, 1, 2, 4] \<rparr> = 1 / 4 \<and>
   getIntegrationInterval (\<lambda>x. x)
     (setGrid (IntegratorExport_init None ''acado.h'') \<lparr> times = [0, 1, 2, 4] \<rparr>)
     (fmul (\<lambda>x. x) (1 / 4) 2) = Some 1 \<and>
   getIntegrationInterval (\<lambda>x. x)
     (setGrid (IntegratorExport_init None ''acado.h'') \<lparr> times = [0, 1, 2, 4] \<rparr>)
     (3 / 4) = Some 2"
proof -
  let ?w = "(setGrid (IntegratorExport_init None ''acado.h'') \<lparr> times = [0, 1, 2, 4] \<rparr>)"
  have wf: "wf_Grid (grid ?w)" by (simp add: setGrid_def wf_Grid_def)
  have d: "duration (\<lambda>x. x) (grid ?w) \<noteq> 0" by (simp add: setGrid_def duration_def fsub_def)
  have n: "2 \<le> getNumIntervals (grid ?w)" by (simp add: setGrid_def getNumIntervals_def)
  have k: "(1::nat) \<le> 2" "2 \<le> getNumIntervals (grid ?w) - 1"
    by (simp_all add: setGrid_def getNumIntervals_def)
  from getIntegrationInterval_at_boundary[OF rounding_id wf d n k]
  show ?thesis using wf rounding_id
    by (simp add: getIntegrationInterval_def setGrid_def getLastTime_def getFirstTime_def
        getTime_def fdiv_def fsub_def fmul_def locate_loop.simps uint_pred_def getNumIntervals_def
        gridScale_def duration_def)
qed

text \<open>
  The claim as the spec states it (index \<open>k\<close> at the scaled boundary \<open>k\<close>) fails on the
  grid \<open>0, 1, 2\<close> at \<open>k = 1\<close>: the time \<open>1/2\<close> is located in interval \<open>0\<close>.  Every
  operation of the source is exact on this input.
\<close>

theorem getIntegrationInterval_boundary_counterexample:
  "getIntegrationInterval (\<lambda>x. x)
     (setGrid (IntegratorExport_init None ''acado.h'') \<lparr> times = [0, 1, 2] \<rparr>)
     (fmul (\<lambda>x. x) (1 / (2 - 0)) 1) = Some 0 \<and>
   getIntegrationInterval (\<lambda>x. x)
     (setGrid (IntegratorExport_init None ''acado.h'') \<lparr> times = [0, 1, 2] \<rparr>)
     (fmul (\<lambda>x. x) (1 / (2 - 0)) 1) \<noteq> Some 1"
  by (simp add: getIntegrationInterval_def setGrid_def getLastTime_def getFirstTime_def
      getTime_def fdiv_def fsub_def fmul_def locate_loop.simps uint_pred_def getNumIntervals_def)


section \<open>The derivation of the integration grid\<close>




text \<open>
  Claim C6, as the source has it.  For a coarse grid that is not equidistant and \<open>S > 0\<close>
  sub-steps, with a step size \<open>h = T / S\<close> that is not zero, \<open>setGrid\<close> sets the grid to the
  two points \<open>0\<close> and \<open>h\<close>, and the step counts to one entry per coarse interval.  The
  entry of interval \<open>i\<close> is the ceiling of \<open>duration i / h - 10 * EPS\<close>, with the operations
  and the roundings of the source, when this ceiling is an \<open>int\<close>.
\<close>

theorem setGrid_steps_non_equidistant:
  assumes "\<not> isEquidistant ocpGrid" and "S \<noteq> 0" and "stepSize rnd ocpGrid S \<noteq> 0"
  shows "\<exists>this'. setGrid_steps rnd EPS this ocpGrid S = Some this' \<and>
           times (grid this') = [0, stepSize rnd ocpGrid S] \<and>
           length (numSteps this') = getNumIntervals ocpGrid \<and>
           (\<forall>i<getNumIntervals ocpGrid.
              - (2 ^ 31) \<le> \<lceil>stepArg rnd EPS ocpGrid (stepSize rnd ocpGrid S) i\<rceil> \<and>
              \<lceil>stepArg rnd EPS ocpGrid (stepSize rnd ocpGrid S) i\<rceil> \<le> 2 ^ 31 - 1 \<longrightarrow>
              numSteps this' ! i =
                real_of_int \<lceil>stepArg rnd EPS ocpGrid (stepSize rnd ocpGrid S) i\<rceil>)"
proof -
  note ne = not_equidistant_nonempty[OF assms(1)]
  from setGrid_steps_result[OF ne assms(2,3), of EPS this] assms(1)
  obtain v where l: "length v = getNumIntervals ocpGrid"
    and e: "\<forall>i<getNumIntervals ocpGrid. v ! i =
              real_of_int (int_of_double (ceil (stepArg rnd EPS ocpGrid (stepSize rnd ocpGrid S) i)))"
    and r: "setGrid_steps rnd EPS this ocpGrid S =
              Some (this\<lparr> N := getNumIntervals ocpGrid,
                         grid := Grid_init 0 (stepSize rnd ocpGrid S) 2, numSteps := v \<rparr>)"
    by auto
  have "v ! i = real_of_int \<lceil>stepArg rnd EPS ocpGrid (stepSize rnd ocpGrid S) i\<rceil>"
    if "i < getNumIntervals ocpGrid"
      and "- (2 ^ 31) \<le> \<lceil>stepArg rnd EPS ocpGrid (stepSize rnd ocpGrid S) i\<rceil>"
      and "\<lceil>stepArg rnd EPS ocpGrid (stepSize rnd ocpGrid S) i\<rceil> \<le> 2 ^ 31 - 1" for i
    using e that int_of_double_in_range[OF refl that(2,3)] by simp
  with l r show ?thesis by (simp add: Grid_init_two)
qed

theorem setGrid_steps_non_equidistant_witness:
  "\<not> isEquidistant \<lparr> times = [0, 1, 3] \<rparr> \<and> (6 :: 32 word) \<noteq> 0 \<and>
   stepSize (\<lambda>x. x) \<lparr> times = [0, 1, 3] \<rparr> 6 = 1 / 2 \<and>
   map_option (\<lambda>c. (times (grid c), numSteps c))
     (setGrid_steps (\<lambda>x. x) (2221 / 10 ^ 19) (IntegratorExport_init None ''acado.h'')
        \<lparr> times = [0, 1, 3] \<rparr> 6)
   = Some ([0, 1 / 2], [2, 4])"
proof -
  let ?g = "\<lparr> times = [0, 1, 3 :: real] \<rparr>"
  have ne: "\<not> isEquidistant ?g" by (simp add: isEquidistant_def)
  have S: "(6 :: 32 word) \<noteq> 0" by simp
  have h: "stepSize (\<lambda>x. x) ?g 6 = 1 / 2"
    by (simp add: stepSize_def duration_def fsub_def double_of_uint_def)
  have h0: "stepSize (\<lambda>x. x) ?g 6 \<noteq> 0" by (simp add: h)
  from setGrid_steps_non_equidistant[OF ne S h0,
      of "2221 / 10 ^ 19" "IntegratorExport_init None ''acado.h''"]
  have "\<exists>c. setGrid_steps (\<lambda>x. x) (2221 / 10 ^ 19) (IntegratorExport_init None ''acado.h'') ?g 6
              = Some c"
    by blast
  moreover have "map_option (\<lambda>c. (times (grid c), numSteps c))
     (setGrid_steps (\<lambda>x. x) (2221 / 10 ^ 19) (IntegratorExport_init None ''acado.h'') ?g 6)
       = Some ([0, 1 / 2], [2, 4])"
    by (simp add: eval_defs Grid_init_two)
  ultimately show ?thesis using ne S h by auto
qed

text \<open>
  Without the bound the claim fails: on the grid \<open>0, 1, 3\<close> with \<open>S = 3 * 2^30\<close> the step
  size is \<open>2^-30\<close>, the ceiling for the second interval is \<open>2^31\<close>, which is not an \<open>int\<close>,
  and the entry that is stored is \<open>-2^31\<close>.  Every operation of the source is exact on
  this input but the subtraction of the tolerance, which does not change the ceilings.
\<close>

theorem setGrid_steps_non_equidistant_counterexample:
  "\<not> isEquidistant \<lparr> times = [0, 1, 3] \<rparr> \<and> (3221225472 :: 32 word) \<noteq> 0 \<and>
   stepSize (\<lambda>x. x) \<lparr> times = [0, 1, 3] \<rparr> 3221225472 = 1 / 2 ^ 30 \<and>
   \<lceil>(3 - 1) / (1 / 2 ^ 30) - 10 * (2221 / 10 ^ 19) :: real\<rceil> = 2147483648 \<and>
   map_option numSteps
     (setGrid_steps (\<lambda>x. x) (2221 / 10 ^ 19) (IntegratorExport_init None ''acado.h'')
        \<lparr> times = [0, 1, 3] \<rparr> 3221225472)
   = Some [1073741824, - 2147483648]"
proof -
  let ?g = "\<lparr> times = [0, 1, 3 :: real] \<rparr>"
  have ne: "\<not> isEquidistant ?g" by (simp add: isEquidistant_def)
  have h: "stepSize (\<lambda>x. x) ?g 3221225472 = 1 / 2 ^ 30"
    by (simp add: stepSize_def duration_def fsub_def double_of_uint_def)
  have c0: "\<lceil>(1073741824 :: real) - 10 * (2221 / 10 ^ 19)\<rceil> = 1073741824"
    by (simp add: ceiling_eq_iff)
  have c1: "\<lceil>(2147483648 :: real) - 10 * (2221 / 10 ^ 19)\<rceil> = 2147483648"
    by (simp add: ceiling_eq_iff)
  have c1': "\<lceil>(3 - 1) / (1 / 2 ^ 30) - 10 * (2221 / 10 ^ 19) :: real\<rceil> = 2147483648"
    using c1 by simp
  have "map_option numSteps
     (setGrid_steps (\<lambda>x. x) (2221 / 10 ^ 19) (IntegratorExport_init None ''acado.h'') ?g 3221225472)
       = Some [1073741824, - 2147483648]"
    by (simp add: eval_defs c0 c1)
  with ne h c1' show ?thesis by simp
qed

text \<open>
  Claim C7, as the source has it.  The tolerance is subtracted before the ceiling is
  taken, so the entry of an interval is at least \<open>1\<close> when the difference
  \<open>duration i / h - 10 * EPS\<close> that the source computes is positive, and its ceiling is an
  \<open>int\<close>.
\<close>

theorem setGrid_steps_entry_positive:
  assumes "\<not> isEquidistant ocpGrid" and "S \<noteq> 0" and "stepSize rnd ocpGrid S \<noteq> 0"
    and "i < getNumIntervals ocpGrid"
    and "0 < stepArg rnd EPS ocpGrid (stepSize rnd ocpGrid S) i"
    and "\<lceil>stepArg rnd EPS ocpGrid (stepSize rnd ocpGrid S) i\<rceil> \<le> 2 ^ 31 - 1"
  shows "\<exists>this'. setGrid_steps rnd EPS this ocpGrid S = Some this' \<and> 1 \<le> numSteps this' ! i"
proof -
  let ?x = "stepArg rnd EPS ocpGrid (stepSize rnd ocpGrid S) i"
  note ne = not_equidistant_nonempty[OF assms(1)]
  from setGrid_steps_result[OF ne assms(2,3), of EPS this] assms(1,4)
  obtain this' where r: "setGrid_steps rnd EPS this ocpGrid S = Some this'"
    and e: "numSteps this' ! i = real_of_int (int_of_double (ceil ?x))"
    by auto
  have c1: "1 \<le> \<lceil>?x\<rceil>"
    using assms(5) by (simp add: less_ceiling_iff[symmetric] int_one_le_iff_zero_less)
  then have "- (2 ^ 31) \<le> \<lceil>?x\<rceil>" by simp
  from int_of_double_in_range[OF refl this assms(6)] e c1
  have "1 \<le> numSteps this' ! i" by simp
  with r show ?thesis by blast
qed

theorem setGrid_steps_entry_positive_witness:
  "\<not> isEquidistant \<lparr> times = [0, 1, 3] \<rparr> \<and> (6 :: 32 word) \<noteq> 0 \<and>
   stepSize (\<lambda>x. x) \<lparr> times = [0, 1, 3] \<rparr> 6 = 1 / 2 \<and>
   (0::real) < stepArg (\<lambda>x. x) (2221 / 10 ^ 19) \<lparr> times = [0, 1, 3] \<rparr> (1 / 2) 0 \<and>
   \<lceil>stepArg (\<lambda>x. x) (2221 / 10 ^ 19) \<lparr> times = [0, 1, 3] \<rparr> (1 / 2) 0\<rceil> = 2 \<and>
   map_option (\<lambda>c. numSteps c ! 0)
     (setGrid_steps (\<lambda>x. x) (2221 / 10 ^ 19) (IntegratorExport_init None ''acado.h'')
        \<lparr> times = [0, 1, 3] \<rparr> 6)
   = Some 2"
proof -
  let ?g = "\<lparr> times = [0, 1, 3 :: real] \<rparr>"
  let ?eps = "2221 / 10 ^ 19 :: real"
  have ne: "\<not> isEquidistant ?g" by (simp add: isEquidistant_def)
  have S: "(6 :: 32 word) \<noteq> 0" by simp
  have h: "stepSize (\<lambda>x. x) ?g 6 = 1 / 2"
    by (simp add: stepSize_def duration_def fsub_def double_of_uint_def)
  have h0: "stepSize (\<lambda>x. x) ?g 6 \<noteq> 0" by (simp add: h)
  have i: "0 < getNumIntervals ?g" by (simp add: getNumIntervals_def)
  have a: "stepArg (\<lambda>x. x) ?eps ?g (1 / 2) 0 = 2 - 10 * ?eps"
    by (simp add: stepArg_def fsub_def fmul_def)
  have pos: "0 < stepArg (\<lambda>x. x) ?eps ?g (stepSize (\<lambda>x. x) ?g 6) 0"
    unfolding h a by simp
  have c: "\<lceil>stepArg (\<lambda>x. x) ?eps ?g (1 / 2) 0\<rceil> = 2"
    unfolding a by (simp add: ceiling_eq_iff)
  have fits: "\<lceil>stepArg (\<lambda>x. x) ?eps ?g (stepSize (\<lambda>x. x) ?g 6) 0\<rceil> \<le> 2 ^ 31 - 1"
    unfolding h c by simp
  from setGrid_steps_entry_positive[OF ne S h0 i pos fits,
      of "IntegratorExport_init None ''acado.h''"]
  have "\<exists>c. setGrid_steps (\<lambda>x. x) ?eps (IntegratorExport_init None ''acado.h'') ?g 6 = Some c"
    by blast
  moreover have "map_option (\<lambda>c. numSteps c ! 0)
     (setGrid_steps (\<lambda>x. x) ?eps (IntegratorExport_init None ''acado.h'') ?g 6) = Some 2"
    by (simp add: eval_defs)
  moreover have "0 < stepArg (\<lambda>x. x) ?eps ?g (1 / 2) 0" unfolding a by simp
  ultimately show ?thesis using ne S h c by blast
qed

text \<open>
  A positive duration alone is not enough: with \<open>EPS = 2.221e-16\<close>, the first interval
  of the grid \<open>0, 2^-60, 1\<close> has a positive duration and the step count \<open>0\<close>.
\<close>

theorem setGrid_steps_entry_counterexample:
  "\<not> isEquidistant \<lparr> times = [0, 1 / 2 ^ 60, 1] \<rparr> \<and>
   (0::real) < 1 / 2 ^ 60 - 0 \<and>
   map_option numSteps
     (setGrid_steps (\<lambda>x. x) (2221 / 10 ^ 19) (IntegratorExport_init None ''acado.h'')
        \<lparr> times = [0, 1 / 2 ^ 60, 1] \<rparr> 1) = Some [0, 1]"
  by (simp add: eval_defs ceiling_eq_iff floor_eq_iff)


section \<open>The binding of an external model\<close>

text \<open>
  Claim C4.  \<open>setModel\<close> succeeds exactly when the dimension of the symbolic ODE function
  is zero.  On success it stores the two names and sets \<open>EXPORT_RHS\<close> to false, and a
  second call on the result succeeds again and stores the new names.  On failure it
  returns \<open>RET_INVALID_OPTION\<close> and leaves the object as it was.
\<close>

theorem setModel_gate:
  "(fst (setModel this nameODE nameDiffsODE) = SUCCESSFUL_RETURN
      \<longleftrightarrow> getFunctionDim (ODE this) = 0) \<and>
   (getFunctionDim (ODE this) = 0 \<longrightarrow>
      setModel this nameODE nameDiffsODE =
        (SUCCESSFUL_RETURN,
         this\<lparr> name_ODE := nameODE, name_diffs_ODE := nameDiffsODE, EXPORT_RHS := False \<rparr>) \<and>
      setModel (snd (setModel this nameODE nameDiffsODE)) nameODE' nameDiffsODE' =
        (SUCCESSFUL_RETURN,
         this\<lparr> name_ODE := nameODE', name_diffs_ODE := nameDiffsODE', EXPORT_RHS := False \<rparr>)) \<and>
   (getFunctionDim (ODE this) \<noteq> 0 \<longrightarrow>
      setModel this nameODE nameDiffsODE = (RET_INVALID_OPTION, this))"
  by (simp add: setModel_def)

theorem setModel_gate_witness:
  "getFunctionDim (ODE (IntegratorExport_init None ''acado.h'')) = 0 \<and>
   fst (setModel (IntegratorExport_init None ''acado.h'') ''rhs'' ''rhs_jac'') = SUCCESSFUL_RETURN \<and>
   name_ODE (snd (setModel (IntegratorExport_init None ''acado.h'') ''rhs'' ''rhs_jac'')) = ''rhs'' \<and>
   name_diffs_ODE (snd (setModel (IntegratorExport_init None ''acado.h'') ''rhs'' ''rhs_jac''))
     = ''rhs_jac'' \<and>
   EXPORT_RHS (snd (setModel (IntegratorExport_init None ''acado.h'') ''rhs'' ''rhs_jac'')) = False \<and>
   name_ODE (snd (setModel (snd (setModel (IntegratorExport_init None ''acado.h'') ''rhs'' ''rhs_jac''))
     ''f'' ''df'')) = ''f'' \<and>
   getFunctionDim (ODE ((IntegratorExport_init None ''acado.h'')
     \<lparr> ODE := \<lparr> fname = ''acado_rhs'', functionDim = 3 \<rparr> \<rparr>)) \<noteq> 0 \<and>
   setModel ((IntegratorExport_init None ''acado.h'')
     \<lparr> ODE := \<lparr> fname = ''acado_rhs'', functionDim = 3 \<rparr> \<rparr>) ''rhs'' ''rhs_jac''
     = (RET_INVALID_OPTION, (IntegratorExport_init None ''acado.h'')
          \<lparr> ODE := \<lparr> fname = ''acado_rhs'', functionDim = 3 \<rparr> \<rparr>)"
proof -
  let ?free = "IntegratorExport_init None ''acado.h''"
  let ?bound = "?free\<lparr> ODE := \<lparr> fname = ''acado_rhs'', functionDim = 3 \<rparr> \<rparr>"
  have d0: "getFunctionDim (ODE ?free) = 0"
    by (simp add: IntegratorExport_init_def ExportODEfunction_default_def getFunctionDim_def)
  have d3: "getFunctionDim (ODE ?bound) \<noteq> 0"
    by (simp add: getFunctionDim_def)
  from setModel_gate[of ?free "''rhs''" "''rhs_jac''" "''f''" "''df''"]
       setModel_gate[of ?bound "''rhs''" "''rhs_jac''" "''f''" "''df''"] d0 d3
  show ?thesis
    by (simp add: setModel_def IntegratorExport_init_def ExportODEfunction_default_def
        getFunctionDim_def)
qed

text \<open>
  Claim C10.  Every call of \<open>setModel\<close> leaves the grid, the step counts and the flags
  \<open>EQUIDISTANT\<close> and \<open>CRS_FORMAT\<close> unchanged; a successful call changes nothing but
  \<open>name_ODE\<close>, \<open>name_diffs_ODE\<close> and \<open>EXPORT_RHS\<close>.
\<close>

theorem setModel_frame:
  "grid (snd (setModel this nameODE nameDiffsODE)) = grid this \<and>
   numSteps (snd (setModel this nameODE nameDiffsODE)) = numSteps this \<and>
   EQUIDISTANT (snd (setModel this nameODE nameDiffsODE)) = EQUIDISTANT this \<and>
   CRS_FORMAT (snd (setModel this nameODE nameDiffsODE)) = CRS_FORMAT this \<and>
   (fst (setModel this nameODE nameDiffsODE) = SUCCESSFUL_RETURN \<longrightarrow>
      snd (setModel this nameODE nameDiffsODE) =
        this\<lparr> name_ODE := nameODE, name_diffs_ODE := nameDiffsODE, EXPORT_RHS := False \<rparr>)"
  by (simp add: setModel_def)

theorem setModel_frame_witness:
  "fst (setModel (setGrid (IntegratorExport_init None ''acado.h'') \<lparr> times = [0, 1] \<rparr>)
          ''rhs'' ''rhs_jac'') = SUCCESSFUL_RETURN \<and>
   grid (snd (setModel (setGrid (IntegratorExport_init None ''acado.h'') \<lparr> times = [0, 1] \<rparr>)
          ''rhs'' ''rhs_jac'')) = \<lparr> times = [0, 1] \<rparr> \<and>
   snd (setModel (setGrid (IntegratorExport_init None ''acado.h'') \<lparr> times = [0, 1] \<rparr>)
          ''rhs'' ''rhs_jac'') =
     (setGrid (IntegratorExport_init None ''acado.h'') \<lparr> times = [0, 1] \<rparr>)
       \<lparr> name_ODE := ''rhs'', name_diffs_ODE := ''rhs_jac'', EXPORT_RHS := False \<rparr>"
proof -
  let ?c = "setGrid (IntegratorExport_init None ''acado.h'') \<lparr> times = [0, 1] \<rparr>"
  have ok: "fst (setModel ?c ''rhs'' ''rhs_jac'') = SUCCESSFUL_RETURN"
    by (simp add: setModel_def setGrid_def IntegratorExport_init_def
        ExportODEfunction_default_def getFunctionDim_def)
  have g: "grid ?c = \<lparr> times = [0, 1] \<rparr>" by (simp add: setGrid_def)
  from setModel_frame[of ?c "''rhs''" "''rhs_jac''"] ok g
  show ?thesis by simp
qed


section \<open>Copies\<close>

text \<open>
  The member \<open>copy\<close> copies the three flags, the grid, the step counts and the handle of
  the integration routine, and an assignment of an object to itself changes nothing.
\<close>

lemma assign_self: "s a = Some A \<Longrightarrow> assign s a a = Some s"
  by (simp add: assign_def)

lemma copy_members:
  "EXPORT_RHS (copy this arg) = EXPORT_RHS arg \<and> EQUIDISTANT (copy this arg) = EQUIDISTANT arg \<and>
   CRS_FORMAT (copy this arg) = CRS_FORMAT arg \<and> grid (copy this arg) = grid arg \<and>
   numSteps (copy this arg) = numSteps arg \<and> integrate (copy this arg) = integrate arg"
  by (simp add: copy_def)

text \<open>
  Claim C1 asks that copy construction and assignment give a destination with the
  source's flags, grid, step counts and \<open>integrate\<close> handle.  Neither the copy constructor
  nor the assignment operator calls \<open>copy\<close>.  For a source bound to an external model
  (\<open>EXPORT_RHS\<close> false) with the grid \<open>0, 1\<close>, the copy-constructed object has
  \<open>EXPORT_RHS\<close> true and an empty grid, and a freshly constructed destination keeps its
  own \<open>EXPORT_RHS\<close> (true) and its own empty grid after the assignment.
\<close>

theorem copy_construction_and_assignment_skip_copy:
  "EXPORT_RHS (setGrid (snd (setModel (IntegratorExport_init None ''acado.h'') ''rhs'' ''rhs_jac''))
                 \<lparr> times = [0, 1] \<rparr>) = False \<and>
   grid (setGrid (snd (setModel (IntegratorExport_init None ''acado.h'') ''rhs'' ''rhs_jac''))
                 \<lparr> times = [0, 1] \<rparr>) = \<lparr> times = [0, 1] \<rparr> \<and>
   EXPORT_RHS (IntegratorExport_copy
     (setGrid (snd (setModel (IntegratorExport_init None ''acado.h'') ''rhs'' ''rhs_jac''))
        \<lparr> times = [0, 1] \<rparr>)) = True \<and>
   grid (IntegratorExport_copy
     (setGrid (snd (setModel (IntegratorExport_init None ''acado.h'') ''rhs'' ''rhs_jac''))
        \<lparr> times = [0, 1] \<rparr>)) = \<lparr> times = [] \<rparr> \<and>
   map_option (\<lambda>s. map_option (\<lambda>dst. (EXPORT_RHS dst, grid dst)) (s 2))
     (assign
        [1 \<mapsto> setGrid (snd (setModel (IntegratorExport_init None ''acado.h'') ''rhs'' ''rhs_jac''))
                 \<lparr> times = [0, 1] \<rparr>,
         2 \<mapsto> IntegratorExport_init None ''acado.h'']
        2 1)
     = Some (Some (True, \<lparr> times = [] \<rparr>))"
  by (simp add: setModel_def setGrid_def IntegratorExport_init_def IntegratorExport_copy_def
      ExportODEfunction_default_def getFunctionDim_def Grid_empty_def assign_def clear_def
      ExportAlgorithm_assign_def)


section \<open>The equidistance query\<close>

text \<open>
  \<open>equidistantControlGrid\<close> holds exactly when there are no step counts.  It holds after
  construction and fails after \<open>setGrid\<close> with a coarse grid that is not equidistant.
  With an equidistant coarse grid, \<open>setGrid\<close> leaves the step counts as they were.
\<close>

lemma equidistantControlGrid_iff: "equidistantControlGrid this \<longleftrightarrow> numSteps this = []"
  by (simp add: equidistantControlGrid_def isEmpty_def)

lemma equidistantControlGrid_init: "equidistantControlGrid (IntegratorExport_init ui hdr)"
  by (simp add: equidistantControlGrid_def isEmpty_def IntegratorExport_init_def)

lemma not_equidistant_intervals: "\<not> isEquidistant g \<Longrightarrow> 0 < getNumIntervals g"
  by (cases "times g") (auto simp: isEquidistant_def getNumIntervals_def)

lemma equidistantControlGrid_non_equidistant:
  assumes "\<not> isEquidistant ocpGrid" and "S \<noteq> 0" and "stepSize rnd ocpGrid S \<noteq> 0"
  shows "\<exists>this'. setGrid_steps rnd EPS this ocpGrid S = Some this' \<and>
                 \<not> equidistantControlGrid this'"
proof -
  from setGrid_steps_result[OF not_equidistant_nonempty[OF assms(1)] assms(2,3), of EPS this]
    assms(1) not_equidistant_intervals[OF assms(1)]
  show ?thesis by (auto simp: equidistantControlGrid_iff)
qed

text \<open>
  Claim C3 asks that \<open>equidistantControlGrid\<close> be true after every \<open>setGrid\<close> with an
  equidistant coarse grid, whatever the state before.  After \<open>setGrid\<close> with the grid
  \<open>0, 1, 3\<close> and then \<open>setGrid\<close> with the equidistant grid \<open>0, 1, 2\<close>, the step counts
  of the first call, \<open>1\<close> and \<open>2\<close>, are still there and the query is false.
\<close>

theorem equidistantControlGrid_stale_after_equidistant_setGrid:
  "\<not> isEquidistant \<lparr> times = [0, 1, 3] \<rparr> \<and> isEquidistant \<lparr> times = [0, 1, 2] \<rparr> \<and>
   Option.bind
     (setGrid_steps (\<lambda>x. x) (2221 / 10 ^ 19) (IntegratorExport_init None ''acado.h'')
        \<lparr> times = [0, 1, 3] \<rparr> 3)
     (\<lambda>c. map_option (\<lambda>c'. (numSteps c', equidistantControlGrid c'))
            (setGrid_steps (\<lambda>x. x) (2221 / 10 ^ 19) c \<lparr> times = [0, 1, 2] \<rparr> 2))
   = Some ([1, 2], False)"
  by (simp add: eval_defs ceiling_eq_iff equidistantControlGrid_def isEmpty_def
      IntegratorExport_init_def)

end
